theory Spec2Isabelle
  imports Complex_Main "HOL-Library.Word"
begin

text \<open>
  A model of the todo backend: the service methods of services/todoService.ts and the
  request handlers of controllers/todoController.ts, over the schema of models/Todo.ts.
  The Mongoose model and the database behind it are the environment; each call the code
  makes on them is a function on an explicit world (the stored documents, and which round
  trips to the database succeed). The clock and the identifier of a new document are
  arguments of the operations that read them.
\<close>

section \<open>JavaScript values used by the todo backend\<close>

text \<open>
  A JavaScript string is a sequence of UTF-16 code units; \<open>s.length\<close> counts code units
  and \<open>s.trim()\<close> removes the ECMAScript white space and line terminator code points from
  both ends. All of those code points lie in the basic multilingual plane, so trimming is
  a function of the code units alone.
\<close>

type_synonym code_unit = "16 word"
type_synonym jsstring = "code_unit list"

definition utf16 :: "string \<Rightarrow> jsstring" where
  "utf16 s = map of_char s"

definition isWhiteSpace :: "code_unit \<Rightarrow> bool" where
  "isWhiteSpace c \<longleftrightarrow>
     c = 0x9 \<or> c = 0xA \<or> c = 0xB \<or> c = 0xC \<or> c = 0xD \<or> c = 0x20 \<or> c = 0xA0 \<or>
     c = 0x1680 \<or> (0x2000 \<le> c \<and> c \<le> 0x200A) \<or> c = 0x2028 \<or> c = 0x2029 \<or>
     c = 0x202F \<or> c = 0x205F \<or> c = 0x3000 \<or> c = 0xFEFF"

definition trim :: "jsstring \<Rightarrow> jsstring" where
  "trim s = rev (dropWhile isWhiteSpace (rev (dropWhile isWhiteSpace s)))"

definition startsWithSpace :: "jsstring \<Rightarrow> bool" where
  "startsWithSpace s = (case s of [] \<Rightarrow> False | c # _ \<Rightarrow> isWhiteSpace c)"

definition endsWithSpace :: "jsstring \<Rightarrow> bool" where
  "endsWithSpace s = startsWithSpace (rev s)"

text \<open>
  Numbers that may leave the integers: \<open>Math.ceil(total / limit)\<close> is \<open>Infinity\<close> or
  \<open>NaN\<close> when \<open>limit\<close> is \<open>0\<close>. Counts, pages and limits are integers far inside the
  range where double arithmetic is exact, so they are modelled as \<open>int\<close>.
\<close>

datatype jsnum = Num int | Infinity | NaN

definition Math_ceil_div :: "int \<Rightarrow> int \<Rightarrow> jsnum" where
  "Math_ceil_div a b =
     (if b = 0 then (if a = 0 then NaN else Infinity) else Num (- ((- a) div b)))"

fun js_less :: "int \<Rightarrow> jsnum \<Rightarrow> bool" where
  "js_less p (Num t) = (p < t)"
| "js_less p Infinity = True"
| "js_less p NaN = False"

section \<open>Store identifiers\<close>

text \<open>
  \<open>mongoose.Types.ObjectId.isValid(id)\<close> on a string: exactly 24 hexadecimal digits, in
  either case. Casting such a string gives the 12-byte identifier, whose string form
  (\<open>_id.toString()\<close>, the \<open>id\<close> of the JSON output) is the same digits in lower case; an
  identifier is kept here in that canonical string form.
\<close>

definition isHexDigit :: "code_unit \<Rightarrow> bool" where
  "isHexDigit c \<longleftrightarrow>
     (0x30 \<le> c \<and> c \<le> 0x39) \<or> (0x61 \<le> c \<and> c \<le> 0x66) \<or> (0x41 \<le> c \<and> c \<le> 0x46)"

definition ObjectId_isValid :: "jsstring \<Rightarrow> bool" where
  "ObjectId_isValid s \<longleftrightarrow> length s = 24 \<and> list_all isHexDigit s"

definition lowerHex :: "code_unit \<Rightarrow> code_unit" where
  "lowerHex c = (if 0x41 \<le> c \<and> c \<le> 0x46 then c + 0x20 else c)"

definition castObjectId :: "jsstring \<Rightarrow> jsstring option" where
  "castObjectId s = (if ObjectId_isValid s then Some (map lowerHex s) else None)"

definition isObjectId :: "jsstring \<Rightarrow> bool" where
  "isObjectId s \<longleftrightarrow> ObjectId_isValid s \<and> map lowerHex s = s"

section \<open>Data model (types/todo.ts, models/Todo.ts)\<close>

text \<open>
  \<open>ITodo\<close>: a stored document. \<open>oid\<close> is the document's \<open>_id\<close>; the \<open>toJSON\<close> transform
  of the schema presents it as \<open>id\<close>. Dates are milliseconds since the epoch.
\<close>

record ITodo =
  oid :: jsstring
  title :: jsstring
  description :: "jsstring option"
  completed :: bool
  createdAt :: nat
  updatedAt :: nat

text \<open>Request bodies: a field that is \<open>undefined\<close> in the JSON body is \<open>None\<close>.\<close>

record CreateTodoRequest =
  c_title :: "jsstring option"
  c_description :: "jsstring option"

record UpdateTodoRequest =
  u_title :: "jsstring option"
  u_description :: "jsstring option"
  u_completed :: "bool option"

section \<open>The document store behind the Mongoose model\<close>

text \<open>
  The collection holds its documents in insertion order. Every operation that reaches
  the database is one round trip; \<open>roundtrips\<close> counts the round trips issued so far and
  \<open>avail n\<close> tells whether round trip number \<open>n\<close> succeeds, so that a timeout or a lost
  connection can strike any single call.
\<close>

record world =
  docs :: "ITodo list"
  avail :: "nat \<Rightarrow> bool"
  roundtrips :: nat

datatype mongoose_error = ValidationError "string list" | CastError | MongoError

datatype query_filter = NoFilter | CompletedIs bool

definition roundtrip :: "world \<Rightarrow> bool \<times> world" where
  "roundtrip w = (avail w (roundtrips w), w\<lparr>roundtrips := Suc (roundtrips w)\<rparr>)"

definition reliable :: "world \<Rightarrow> bool" where
  "reliable w \<longleftrightarrow> (\<forall>n. avail w n)"

definition lookup :: "jsstring \<Rightarrow> world \<Rightarrow> ITodo option" where
  "lookup i w = find (\<lambda>d. oid d = i) (docs w)"

fun update_first :: "('a \<Rightarrow> bool) \<Rightarrow> ('a \<Rightarrow> 'a) \<Rightarrow> 'a list \<Rightarrow> 'a list" where
  "update_first P f [] = []"
| "update_first P f (x # xs) = (if P x then f x # xs else x # update_first P f xs)"

fun remove_first :: "('a \<Rightarrow> bool) \<Rightarrow> 'a list \<Rightarrow> 'a list" where
  "remove_first P [] = []"
| "remove_first P (x # xs) = (if P x then xs else x # remove_first P xs)"

fun matches :: "query_filter \<Rightarrow> ITodo \<Rightarrow> bool" where
  "matches NoFilter d = True"
| "matches (CompletedIs b) d = (completed d = b)"

text \<open>
  Schema validators of models/Todo.ts. \<open>title\<close>: \<open>required\<close> (a string of length 0 does
  not satisfy it) and \<open>maxlength\<close> 200; \<open>description\<close>: \<open>maxlength\<close> 1000. Both paths have
  \<open>trim: true\<close>, a setter that runs before validation, on documents and on updates.
\<close>

definition validate_title :: "jsstring option \<Rightarrow> string list" where
  "validate_title t =
     (case t of
        None \<Rightarrow> [''Title is required'']
      | Some s \<Rightarrow>
          if length s = 0 then [''Title is required'']
          else if 200 < length s then [''Title cannot exceed 200 characters'']
          else [])"

definition validate_description :: "jsstring option \<Rightarrow> string list" where
  "validate_description d =
     (case d of
        None \<Rightarrow> []
      | Some s \<Rightarrow>
          if 1000 < length s then [''Description cannot exceed 1000 characters''] else [])"

text \<open>
  \<open>new Todo({title, description, completed}).save()\<close>: setters, validation, then one
  insert. \<open>timestamps: true\<close> gives a new document the same instant in \<open>createdAt\<close> and
  \<open>updatedAt\<close>. \<open>fresh\<close> is the \<open>_id\<close> the driver generated and \<open>now\<close> the clock; the
  unique index on \<open>_id\<close> rejects an insert whose \<open>_id\<close> is already stored.
\<close>

definition Todo_save_new ::
  "nat \<Rightarrow> jsstring \<Rightarrow> jsstring option \<Rightarrow> jsstring option \<Rightarrow> bool \<Rightarrow> world
     \<Rightarrow> (mongoose_error + ITodo) \<times> world" where
  "Todo_save_new now fresh t d c w =
     (let t' = map_option trim t; d' = map_option trim d;
          errs = validate_title t' @ validate_description d'
      in case t' of
           None \<Rightarrow> (Inl (ValidationError errs), w)
         | Some s \<Rightarrow>
             if errs \<noteq> [] then (Inl (ValidationError errs), w)
             else
               let (ok, w1) = roundtrip w;
                   doc = \<lparr>oid = fresh, title = s, description = d', completed = c,
                          createdAt = now, updatedAt = now\<rparr>
               in if \<not> ok \<or> lookup fresh w \<noteq> None then (Inl MongoError, w1)
                  else (Inr doc, w1\<lparr>docs := docs w1 @ [doc]\<rparr>))"

text \<open>\<open>Todo.findById(id)\<close>: cast the id, then one query.\<close>

definition Todo_findById ::
  "jsstring \<Rightarrow> world \<Rightarrow> (mongoose_error + ITodo option) \<times> world" where
  "Todo_findById tid w =
     (case castObjectId tid of
        None \<Rightarrow> (Inl CastError, w)
      | Some i \<Rightarrow>
          let (ok, w1) = roundtrip w
          in if ok then (Inr (lookup i w), w1) else (Inl MongoError, w1))"

text \<open>
  \<open>Todo.findByIdAndUpdate(id, update, {new: true, runValidators: true})\<close>. Keys of the
  update whose value is \<open>undefined\<close> are dropped; the remaining keys are \<open>$set\<close>, after
  the setters and the validators of their paths; the document after the update is
  returned, or \<open>null\<close> when none has the id.
\<close>

definition apply_set ::
  "jsstring option \<Rightarrow> jsstring option \<Rightarrow> bool option \<Rightarrow> nat \<Rightarrow> ITodo \<Rightarrow> ITodo" where
  "apply_set t d c now d0 =
     d0\<lparr>title := (case t of None \<Rightarrow> title d0 | Some s \<Rightarrow> s),
        description := (case d of None \<Rightarrow> description d0 | Some s \<Rightarrow> Some s),
        completed := (case c of None \<Rightarrow> completed d0 | Some b \<Rightarrow> b),
        updatedAt := now\<rparr>"

definition Todo_findByIdAndUpdate ::
  "jsstring \<Rightarrow> UpdateTodoRequest \<Rightarrow> nat \<Rightarrow> world
     \<Rightarrow> (mongoose_error + ITodo option) \<times> world" where
  "Todo_findByIdAndUpdate tid upd now w =
     (case castObjectId tid of
        None \<Rightarrow> (Inl CastError, w)
      | Some i \<Rightarrow>
          let t' = map_option trim (u_title upd); d' = map_option trim (u_description upd);
              errs = (case t' of None \<Rightarrow> [] | Some s \<Rightarrow> validate_title (Some s))
                       @ validate_description d'
          in if errs \<noteq> [] then (Inl (ValidationError errs), w)
             else
               let (ok, w1) = roundtrip w
               in if \<not> ok then (Inl MongoError, w1)
                  else
                    (case lookup i w of
                       None \<Rightarrow> (Inr None, w1)
                     | Some d0 \<Rightarrow>
                         (Inr (Some (apply_set t' d' (u_completed upd) now d0)),
                          w1\<lparr>docs := update_first (\<lambda>x. oid x = i)
                                        (apply_set t' d' (u_completed upd) now) (docs w1)\<rparr>)))"

text \<open>\<open>Todo.findByIdAndDelete(id)\<close>: removes the document with the id, if there is one.\<close>

definition Todo_findByIdAndDelete ::
  "jsstring \<Rightarrow> world \<Rightarrow> (mongoose_error + ITodo option) \<times> world" where
  "Todo_findByIdAndDelete tid w =
     (case castObjectId tid of
        None \<Rightarrow> (Inl CastError, w)
      | Some i \<Rightarrow>
          let (ok, w1) = roundtrip w
          in if \<not> ok then (Inl MongoError, w1)
             else (Inr (lookup i w), w1\<lparr>docs := remove_first (\<lambda>x. oid x = i) (docs w1)\<rparr>))"

text \<open>
  \<open>todo.save()\<close> on a loaded document whose \<open>completed\<close> path was assigned. Saving
  validates the loaded paths again, modified or not: \<open>required\<close> and \<open>maxlength\<close> of
  \<open>title\<close> and \<open>maxlength\<close> of \<open>description\<close>, on the values as they are stored (the
  setters run on assignment only). A document that fails is not written. Otherwise the
  modified path and the refreshed \<open>updatedAt\<close> are written to the stored document.
\<close>

definition Todo_save_completed ::
  "nat \<Rightarrow> ITodo \<Rightarrow> world \<Rightarrow> (mongoose_error + ITodo) \<times> world" where
  "Todo_save_completed now d w =
     (let errs = validate_title (Some (title d)) @ validate_description (description d)
      in if errs \<noteq> [] then (Inl (ValidationError errs), w)
         else
           let (ok, w1) = roundtrip w
           in if \<not> ok \<or> lookup (oid d) w = None then (Inl MongoError, w1)
              else (Inr (d\<lparr>updatedAt := now\<rparr>),
                    w1\<lparr>docs := update_first (\<lambda>x. oid x = oid d)
                                  (\<lambda>x. x\<lparr>completed := completed d, updatedAt := now\<rparr>)
                                  (docs w1)\<rparr>))"

text \<open>
  \<open>Todo.find(filter).sort({createdAt: -1}).skip(skip).limit(limit)\<close> and
  \<open>Todo.countDocuments(filter)\<close>. Documents created at the same instant keep their
  insertion order. The server rejects a negative skip; a limit of \<open>0\<close> is no limit and a
  negative limit counts as its absolute value.
\<close>

definition newest_first :: "ITodo list \<Rightarrow> ITodo list" where
  "newest_first xs = sort_key (\<lambda>d. - int (createdAt d)) xs"

definition apply_limit :: "int \<Rightarrow> 'a list \<Rightarrow> 'a list" where
  "apply_limit n xs = (if n = 0 then xs else take (nat \<bar>n\<bar>) xs)"

definition Todo_find_page ::
  "query_filter \<Rightarrow> int \<Rightarrow> int \<Rightarrow> world \<Rightarrow> (mongoose_error + ITodo list) \<times> world" where
  "Todo_find_page f skip limit w =
     (let (ok, w1) = roundtrip w
      in if \<not> ok \<or> skip < 0 then (Inl MongoError, w1)
         else (Inr (apply_limit limit (drop (nat skip) (newest_first (filter (matches f) (docs w))))),
               w1))"

definition Todo_countDocuments ::
  "query_filter \<Rightarrow> world \<Rightarrow> (mongoose_error + nat) \<times> world" where
  "Todo_countDocuments f w =
     (let (ok, w1) = roundtrip w
      in if \<not> ok then (Inl MongoError, w1)
         else (Inr (length (filter (matches f) (docs w))), w1))"

section \<open>TodoService (services/todoService.ts)\<close>

text \<open>
  A service method returns \<open>Inr\<close> its result or \<open>Inl\<close> the message of the \<open>Error\<close> it
  throws, together with the world it leaves behind.
\<close>

fun join :: "string \<Rightarrow> string list \<Rightarrow> string" where
  "join sep [] = []"
| "join sep [x] = x"
| "join sep (x # y # ys) = x @ sep @ join sep (y # ys)"

definition status_filter :: "jsstring option \<Rightarrow> query_filter" where
  "status_filter st =
     (if st = Some (utf16 ''completed'') then CompletedIs True
      else if st = Some (utf16 ''pending'') then CompletedIs False
      else NoFilter)"

definition TodoService_getTodoById ::
  "jsstring \<Rightarrow> world \<Rightarrow> (string + ITodo option) \<times> world" where
  "TodoService_getTodoById tid w =
     (if \<not> ObjectId_isValid tid then (Inr None, w)
      else
        (case Todo_findById tid w of
           (Inr todo, w1) \<Rightarrow> (Inr todo, w1)
         | (Inl e, w1) \<Rightarrow> (Inl ''Failed to fetch todo'', w1)))"

definition TodoService_createTodo ::
  "nat \<Rightarrow> jsstring \<Rightarrow> CreateTodoRequest \<Rightarrow> world \<Rightarrow> (string + ITodo) \<times> world" where
  "TodoService_createTodo now fresh todoData w =
     (case Todo_save_new now fresh (c_title todoData) (c_description todoData) False w of
        (Inr savedTodo, w1) \<Rightarrow> (Inr savedTodo, w1)
      | (Inl (ValidationError msgs), w1) \<Rightarrow>
          (Inl (''Validation error: '' @ join '', '' msgs), w1)
      | (Inl e, w1) \<Rightarrow> (Inl ''Failed to create todo'', w1))"

definition TodoService_updateTodo ::
  "nat \<Rightarrow> jsstring \<Rightarrow> UpdateTodoRequest \<Rightarrow> world \<Rightarrow> (string + ITodo option) \<times> world" where
  "TodoService_updateTodo now tid updateData w =
     (if \<not> ObjectId_isValid tid then (Inr None, w)
      else
        (case Todo_findByIdAndUpdate tid updateData now w of
           (Inr updatedTodo, w1) \<Rightarrow> (Inr updatedTodo, w1)
         | (Inl (ValidationError msgs), w1) \<Rightarrow>
             (Inl (''Validation error: '' @ join '', '' msgs), w1)
         | (Inl e, w1) \<Rightarrow> (Inl ''Failed to update todo'', w1)))"

definition TodoService_deleteTodo ::
  "jsstring \<Rightarrow> world \<Rightarrow> (string + bool) \<times> world" where
  "TodoService_deleteTodo tid w =
     (if \<not> ObjectId_isValid tid then (Inr False, w)
      else
        (case Todo_findByIdAndDelete tid w of
           (Inr deletedTodo, w1) \<Rightarrow> (Inr (deletedTodo \<noteq> None), w1)
         | (Inl e, w1) \<Rightarrow> (Inl ''Failed to delete todo'', w1)))"

definition TodoService_toggleTodo ::
  "nat \<Rightarrow> jsstring \<Rightarrow> world \<Rightarrow> (string + ITodo option) \<times> world" where
  "TodoService_toggleTodo now tid w =
     (if \<not> ObjectId_isValid tid then (Inr None, w)
      else
        (case Todo_findById tid w of
           (Inl e, w1) \<Rightarrow> (Inl ''Failed to toggle todo'', w1)
         | (Inr None, w1) \<Rightarrow> (Inr None, w1)
         | (Inr (Some todo), w1) \<Rightarrow>
             (case Todo_save_completed now (todo\<lparr>completed := \<not> completed todo\<rparr>) w1 of
                (Inr updatedTodo, w2) \<Rightarrow> (Inr (Some updatedTodo), w2)
              | (Inl e, w2) \<Rightarrow> (Inl ''Failed to toggle todo'', w2))))"

record paginated =
  todos :: "ITodo list"
  total :: int
  page :: int
  totalPages :: jsnum

text \<open>
  \<open>Promise.all\<close> issues the page query and the count query together and rejects when
  either of them fails.
\<close>

definition TodoService_getTodosPaginated ::
  "int \<Rightarrow> int \<Rightarrow> jsstring option \<Rightarrow> world \<Rightarrow> (string + paginated) \<times> world" where
  "TodoService_getTodosPaginated pg limit st w =
     (let flt = status_filter st;
          skip = (pg - 1) * limit;
          (r1, w1) = Todo_find_page flt skip limit w;
          (r2, w2) = Todo_countDocuments flt w1
      in case (r1, r2) of
           (Inr ts, Inr n) \<Rightarrow>
             (Inr \<lparr>todos = ts, total = int n, page = pg,
                   totalPages = Math_ceil_div (int n) limit\<rparr>, w2)
         | _ \<Rightarrow> (Inl ''Failed to fetch paginated todos'', w2))"

section \<open>TodoController (controllers/todoController.ts)\<close>

text \<open>
  What a handler sends: \<open>res.status(status).json({success, data, message, error})\<close>.
  A key the handler does not write is \<open>None\<close>.
\<close>

record 'a response =
  status :: nat
  success :: bool
  data :: "'a option"
  message :: "string option"
  error :: "string option"

record pagination =
  pg_page :: int
  pg_limit :: int
  pg_total :: int
  pg_totalPages :: jsnum
  hasNext :: bool
  hasPrev :: bool

record paged_response = "ITodo list response" +
  pagination :: "pagination option"

definition TodoController_getTodoById ::
  "jsstring \<Rightarrow> world \<Rightarrow> ITodo response \<times> world" where
  "TodoController_getTodoById tid w =
     (if tid = [] then
        (\<lparr>status = 400, success = False, data = None,
          message = Some ''Todo ID is required'', error = None\<rparr>, w)
      else
        (case TodoService_getTodoById tid w of
           (Inl e, w1) \<Rightarrow>
             (\<lparr>status = 500, success = False, data = None,
               message = Some ''Failed to fetch todo'', error = Some e\<rparr>, w1)
         | (Inr None, w1) \<Rightarrow>
             (\<lparr>status = 404, success = False, data = None,
               message = Some ''Todo not found'', error = None\<rparr>, w1)
         | (Inr (Some todo), w1) \<Rightarrow>
             (\<lparr>status = 200, success = True, data = Some todo,
               message = None, error = None\<rparr>, w1)))"

definition TodoController_createTodo ::
  "nat \<Rightarrow> jsstring \<Rightarrow> CreateTodoRequest \<Rightarrow> world \<Rightarrow> ITodo response \<times> world" where
  "TodoController_createTodo now fresh todoData w =
     (case c_title todoData of
        None \<Rightarrow>
          (\<lparr>status = 400, success = False, data = None,
            message = Some ''Title is required'', error = None\<rparr>, w)
      | Some t \<Rightarrow>
          if t = [] \<or> length (trim t) = 0 then
            (\<lparr>status = 400, success = False, data = None,
              message = Some ''Title is required'', error = None\<rparr>, w)
          else
            (case TodoService_createTodo now fresh
                    \<lparr>c_title = Some (trim t),
                     c_description = map_option trim (c_description todoData)\<rparr> w of
               (Inr newTodo, w1) \<Rightarrow>
                 (\<lparr>status = 201, success = True, data = Some newTodo,
                   message = Some ''Todo created successfully'', error = None\<rparr>, w1)
             | (Inl e, w1) \<Rightarrow>
                 (\<lparr>status = 500, success = False, data = None,
                   message = Some ''Failed to create todo'', error = Some e\<rparr>, w1)))"

definition TodoController_updateTodo ::
  "nat \<Rightarrow> jsstring \<Rightarrow> UpdateTodoRequest \<Rightarrow> world \<Rightarrow> ITodo response \<times> world" where
  "TodoController_updateTodo now tid updateData w =
     (if tid = [] then
        (\<lparr>status = 400, success = False, data = None,
          message = Some ''Todo ID is required'', error = None\<rparr>, w)
      else if (case u_title updateData of None \<Rightarrow> False | Some t \<Rightarrow> length (trim t) = 0) then
        (\<lparr>status = 400, success = False, data = None,
          message = Some ''Title cannot be empty'', error = None\<rparr>, w)
      else
        (case TodoService_updateTodo now tid
                (updateData\<lparr>u_title := map_option trim (u_title updateData),
                            u_description := map_option trim (u_description updateData)\<rparr>) w of
           (Inl e, w1) \<Rightarrow>
             (\<lparr>status = 500, success = False, data = None,
               message = Some ''Failed to update todo'', error = Some e\<rparr>, w1)
         | (Inr None, w1) \<Rightarrow>
             (\<lparr>status = 404, success = False, data = None,
               message = Some ''Todo not found'', error = None\<rparr>, w1)
         | (Inr (Some updatedTodo), w1) \<Rightarrow>
             (\<lparr>status = 200, success = True, data = Some updatedTodo,
               message = Some ''Todo updated successfully'', error = None\<rparr>, w1)))"

text \<open>
  \<open>parseInt(req.query.page) || 1\<close>: the parsed query parameter is \<open>None\<close> when
  \<open>parseInt\<close> gives \<open>NaN\<close>; \<open>NaN\<close> and \<open>0\<close> are both replaced by the default.
\<close>

definition or_default :: "int option \<Rightarrow> int \<Rightarrow> int" where
  "or_default parsed dflt =
     (case parsed of None \<Rightarrow> dflt | Some n \<Rightarrow> if n = 0 then dflt else n)"

definition TodoController_getPaginatedTodos ::
  "int option \<Rightarrow> int option \<Rightarrow> jsstring option \<Rightarrow> world \<Rightarrow> paged_response \<times> world" where
  "TodoController_getPaginatedTodos page_q limit_q st w =
     (let pg = or_default page_q 1; limit = or_default limit_q 10
      in if pg < 1 \<or> limit < 1 \<or> limit > 100 then
           (\<lparr>status = 400, success = False, data = None,
             message = Some ''Invalid pagination parameters. Page must be >= 1, limit must be between 1 and 100'',
             error = None, pagination = None\<rparr>, w)
         else
           (case TodoService_getTodosPaginated pg limit st w of
              (Inr result, w1) \<Rightarrow>
                (\<lparr>status = 200, success = True, data = Some (todos result),
                  message = None, error = None,
                  pagination = Some \<lparr>pg_page = page result, pg_limit = limit,
                                      pg_total = total result,
                                      pg_totalPages = totalPages result,
                                      hasNext = js_less (page result) (totalPages result),
                                      hasPrev = (page result > 1)\<rparr>\<rparr>, w1)
            | (Inl e, w1) \<Rightarrow>
                (\<lparr>status = 500, success = False, data = None,
                  message = Some ''Failed to fetch paginated todos'', error = Some e,
                  pagination = None\<rparr>, w1)))"

section \<open>Properties\<close>

text \<open>
  A stored todo is clean when its title is neither empty nor white space only and neither
  its title nor its description begins or ends with white space.
\<close>

definition clean :: "ITodo \<Rightarrow> bool" where
  "clean d \<longleftrightarrow>
     title d \<noteq> [] \<and> \<not> list_all isWhiteSpace (title d) \<and>
     \<not> startsWithSpace (title d) \<and> \<not> endsWithSpace (title d) \<and>
     (case description d of
        None \<Rightarrow> True
      | Some s \<Rightarrow> \<not> startsWithSpace s \<and> \<not> endsWithSpace s)"

text \<open>
  A stored todo passes the schema's validators when its title is not empty and has at
  most 200 code units and its description, if there is one, has at most 1000.
\<close>

definition valid_stored :: "ITodo \<Rightarrow> bool" where
  "valid_stored d \<longleftrightarrow>
     title d \<noteq> [] \<and> length (title d) \<le> 200 \<and>
     (case description d of None \<Rightarrow> True | Some s \<Rightarrow> length s \<le> 1000)"

text \<open>The stored todos that a status query parameter selects.\<close>

definition matching :: "jsstring option \<Rightarrow> world \<Rightarrow> ITodo list" where
  "matching st w = filter (matches (status_filter st)) (docs w)"

text \<open>Sample data for the concrete instances.\<close>

definition sample_id :: jsstring where
  "sample_id = utf16 ''64b7f3a2c9e1d50a12345678''"

definition other_id :: jsstring where
  "other_id = utf16 ''64b7f3a2c9e1d50a12345679''"

definition bad_id :: jsstring where
  "bad_id = utf16 ''not-a-valid-id-format''"

definition sample_todo :: ITodo where
  "sample_todo = \<lparr>oid = sample_id, title = utf16 ''Buy milk'', description = Some (utf16 ''2%''),
                   completed = False, createdAt = 1000, updatedAt = 1000\<rparr>"

definition sample_world :: world where
  "sample_world = \<lparr>docs = [sample_todo], avail = (\<lambda>n. True), roundtrips = 0\<rparr>"

definition offline_world :: world where
  "offline_world = \<lparr>docs = [sample_todo], avail = (\<lambda>n. False), roundtrips = 3\<rparr>"

definition long_title_todo :: ITodo where
  "long_title_todo = \<lparr>oid = sample_id, title = replicate 201 0x78, description = None,
                       completed = False, createdAt = 1000, updatedAt = 1000\<rparr>"

definition long_title_world :: world where
  "long_title_world = \<lparr>docs = [long_title_todo], avail = (\<lambda>n. True), roundtrips = 0\<rparr>"

definition numbered_todo :: "nat \<Rightarrow> ITodo" where
  "numbered_todo k =
     \<lparr>oid = utf16 ''64b7f3a2c9e1d50a123456'' @ [of_nat (48 + k div 10), of_nat (48 + k mod 10)],
      title = utf16 ''Task'', description = None, completed = even k,
      createdAt = 1000 + k, updatedAt = 1000 + k\<rparr>"

definition twenty_five :: world where
  "twenty_five = \<lparr>docs = map numbered_todo [0..<25], avail = (\<lambda>n. True), roundtrips = 0\<rparr>"

definition padded_create :: CreateTodoRequest where
  "padded_create = \<lparr>c_title = Some (utf16 '' Buy milk ''), c_description = Some (utf16 '' 2% '')\<rparr>"

definition blank_create :: CreateTodoRequest where
  "blank_create = \<lparr>c_title = Some (utf16 ''   ''), c_description = None\<rparr>"

definition absent_create :: CreateTodoRequest where
  "absent_create = \<lparr>c_title = None, c_description = Some (utf16 ''2%'')\<rparr>"

definition ab_create :: CreateTodoRequest where
  "ab_create = \<lparr>c_title = Some (utf16 ''A''), c_description = Some (utf16 ''B'')\<rparr>"

definition padded_update :: UpdateTodoRequest where
  "padded_update = \<lparr>u_title = Some (utf16 '' Walk dog ''), u_description = None,
                     u_completed = None\<rparr>"

definition blank_update :: UpdateTodoRequest where
  "blank_update = \<lparr>u_title = Some (utf16 ''   ''), u_description = None, u_completed = None\<rparr>"

definition done_update :: UpdateTodoRequest where
  "done_update = \<lparr>u_title = None, u_description = None, u_completed = Some True\<rparr>"

definition empty_update :: UpdateTodoRequest where
  "empty_update = \<lparr>u_title = None, u_description = None, u_completed = None\<rparr>"

section \<open>Trimming\<close>

lemma dropWhile_not_starts: "\<not> startsWithSpace (dropWhile isWhiteSpace s)"
  by (induction s) (simp_all add: startsWithSpace_def)

lemma trim_not_ends: "\<not> endsWithSpace (trim s)"
  by (simp add: endsWithSpace_def trim_def dropWhile_not_starts)

lemma rev_dropWhile_rev_starts:
  "\<not> startsWithSpace ys \<Longrightarrow> \<not> startsWithSpace (rev (dropWhile isWhiteSpace (rev ys)))"
proof (cases ys)
  case Nil
  then show ?thesis by (simp add: startsWithSpace_def)
next
  case (Cons y zs)
  assume "\<not> startsWithSpace ys"
  with Cons have ny: "\<not> isWhiteSpace y" by (simp add: startsWithSpace_def)
  have "\<exists>us. dropWhile isWhiteSpace (rev zs @ [y]) = us @ [y]"
    using ny by (simp add: dropWhile_append)
  then obtain us where "dropWhile isWhiteSpace (rev zs @ [y]) = us @ [y]" ..
  with Cons ny show ?thesis by (simp add: startsWithSpace_def)
qed

lemma trim_not_starts: "\<not> startsWithSpace (trim s)"
  unfolding trim_def by (rule rev_dropWhile_rev_starts) (rule dropWhile_not_starts)

lemma dropWhile_id: "\<not> startsWithSpace s \<Longrightarrow> dropWhile isWhiteSpace s = s"
  by (cases s) (simp_all add: startsWithSpace_def)

lemma trim_id: "\<not> startsWithSpace s \<Longrightarrow> \<not> endsWithSpace s \<Longrightarrow> trim s = s"
  by (simp add: trim_def dropWhile_id endsWithSpace_def)

lemma trim_trim: "trim (trim s) = trim s"
  by (rule trim_id) (rule trim_not_starts, rule trim_not_ends)

lemma map_option_trim_trim: "map_option trim (map_option trim t) = map_option trim t"
  by (cases t) (simp_all add: trim_trim)

lemma not_all_space: "s \<noteq> [] \<Longrightarrow> \<not> startsWithSpace s \<Longrightarrow> \<not> list_all isWhiteSpace s"
  by (cases s) (simp_all add: startsWithSpace_def)

lemma dropWhile_all_iff: "(\<forall>x\<in>set (dropWhile P s). P x) \<longleftrightarrow> (\<forall>x\<in>set s. P x)"
  by (induction s) auto

lemma trim_Nil_iff: "trim s = [] \<longleftrightarrow> list_all isWhiteSpace s"
  by (simp add: trim_def list_all_iff dropWhile_all_iff)

lemma trim_length: "length (trim s) \<le> length s"
  unfolding trim_def
  by (metis length_dropWhile_le length_rev order_trans)

section \<open>Lists of documents and identifiers\<close>

lemma find_update_first_same:
  "find P xs = Some d \<Longrightarrow> P (f d) \<Longrightarrow> find P (update_first P f xs) = Some (f d)"
  by (induction xs) (auto split: if_splits)

lemma find_update_first_None:
  "find P xs = None \<Longrightarrow> update_first P f xs = xs"
  by (induction xs) (auto split: if_splits)

lemma find_update_first_other:
  "(\<And>x. P x \<Longrightarrow> \<not> Q x \<and> \<not> Q (f x)) \<Longrightarrow> find Q (update_first P f xs) = find Q xs"
  by (induction xs) auto

lemma length_update_first: "length (update_first P f xs) = length xs"
  by (induction xs) auto

lemma map_update_first: "(\<And>x. g (f x) = g x) \<Longrightarrow> map g (update_first P f xs) = map g xs"
  by (induction xs) auto

lemma list_all_update_first:
  "list_all R xs \<Longrightarrow> (\<And>x. R x \<Longrightarrow> R (f x)) \<Longrightarrow> list_all R (update_first P f xs)"
  by (induction xs) auto

lemma update_first_mem: "find P xs = Some d \<Longrightarrow> f d \<in> set (update_first P f xs)"
  by (induction xs) (auto split: if_splits)

lemma remove_first_None: "find P xs = None \<Longrightarrow> remove_first P xs = xs"
  by (induction xs) (auto split: if_splits)

lemma length_remove_first:
  "find P xs = Some d \<Longrightarrow> Suc (length (remove_first P xs)) = length xs"
  by (induction xs) (auto split: if_splits)

lemma find_remove_first_other:
  "(\<And>x. P x \<Longrightarrow> \<not> Q x) \<Longrightarrow> find Q (remove_first P xs) = find Q xs"
  by (induction xs) auto

lemma find_None_iff_oid: "find (\<lambda>x. oid x = i) xs = None \<longleftrightarrow> i \<notin> oid ` set xs"
  by (induction xs) auto

lemma find_remove_first_same:
  "distinct (map oid xs) \<Longrightarrow>
     find (\<lambda>x. oid x = i) (remove_first (\<lambda>x. oid x = i) xs) = None"
  by (induction xs) (auto simp: find_None_iff_oid)

lemma list_all_remove_first: "list_all R xs \<Longrightarrow> list_all R (remove_first P xs)"
  by (induction xs) auto

lemma set_remove_first: "set (remove_first P xs) \<subseteq> set xs"
  by (induction xs) auto

lemma distinct_remove_first:
  "distinct (map g xs) \<Longrightarrow> distinct (map g (remove_first P xs))"
  using set_remove_first by (induction xs) fastforce+

lemma find_Some_mem: "find P xs = Some d \<Longrightarrow> d \<in> set xs \<and> P d"
  by (induction xs) (auto split: if_splits)

lemma find_append_new:
  "find P xs = None \<Longrightarrow> P d \<Longrightarrow> find P (xs @ [d]) = Some d"
  by (induction xs) (auto split: if_splits)

lemma castObjectId_valid: "castObjectId tid = Some i \<Longrightarrow> ObjectId_isValid tid"
  by (simp add: castObjectId_def split: if_splits)

lemma valid_nonempty: "ObjectId_isValid tid \<Longrightarrow> tid \<noteq> []"
  by (auto simp: ObjectId_isValid_def)

lemma castObjectId_None: "castObjectId tid = None \<longleftrightarrow> \<not> ObjectId_isValid tid"
  by (simp add: castObjectId_def)

lemma castObjectId_canonical: "isObjectId s \<Longrightarrow> castObjectId s = Some s"
  by (simp add: castObjectId_def isObjectId_def)

lemma lookup_oid: "lookup i w = Some d \<Longrightarrow> oid d = i"
  unfolding lookup_def by (drule find_Some_mem) simp

lemma oid_apply_set: "oid (apply_set t d c now x) = oid x"
  by (simp add: apply_set_def)

lemma lookup_after_update:
  assumes "lookup i w = Some d0" and "\<And>x. oid (f x) = oid x"
    and "docs w' = update_first (\<lambda>x. oid x = i) f (docs w)"
  shows "lookup i w' = Some (f d0) \<and> (\<forall>j. j \<noteq> i \<longrightarrow> lookup j w' = lookup j w)"
proof -
  have "oid d0 = i" using assms(1) by (rule lookup_oid)
  then have "oid (f d0) = i" by (simp add: assms(2))
  then have "lookup i w' = Some (f d0)"
    using assms(1,3) by (simp add: lookup_def find_update_first_same)
  moreover have "\<forall>j. j \<noteq> i \<longrightarrow> lookup j w' = lookup j w"
    using assms(2,3) by (auto simp: lookup_def intro!: find_update_first_other)
  ultimately show ?thesis by simp
qed

lemma length_newest_first: "length (newest_first xs) = length xs"
  by (simp add: newest_first_def)

lemma matching_all: "status_filter st = NoFilter \<Longrightarrow> matching st w = docs w"
  by (simp add: matching_def)

section \<open>Clean documents stay clean\<close>

lemma clean_trimmed:
  "trim t \<noteq> [] \<Longrightarrow>
   clean \<lparr>oid = i, title = trim t, description = map_option trim d, completed = c,
          createdAt = a, updatedAt = b\<rparr>"
  by (cases d) (simp_all add: clean_def trim_not_starts trim_not_ends not_all_space)

lemma clean_apply_set:
  "clean d0 \<Longrightarrow> (\<And>s. t = Some s \<Longrightarrow> trim s \<noteq> []) \<Longrightarrow>
   clean (apply_set (map_option trim t) (map_option trim d) c now d0)"
  by (cases t; cases d)
     (simp_all add: clean_def apply_set_def trim_not_starts trim_not_ends not_all_space)

lemma validate_title_Nil: "validate_title (Some s) = [] \<Longrightarrow> s \<noteq> []"
  by (auto simp: validate_title_def split: if_splits)

lemma save_new_clean:
  assumes "list_all clean (docs w)" and "Todo_save_new now fresh t d c w = (r, w')"
  shows "list_all clean (docs w') \<and> (\<forall>x. r = Inr x \<longrightarrow> x \<in> set (docs w') \<and> clean x)"
  using assms
  by (cases t)
     (auto simp: Todo_save_new_def roundtrip_def Let_def clean_trimmed
           dest!: validate_title_Nil split: if_splits)

lemma findByIdAndUpdate_result:
  assumes "Todo_findByIdAndUpdate tid upd now w = (Inr (Some x), w')"
  shows "\<exists>i d0. castObjectId tid = Some i \<and> lookup i w = Some d0 \<and> avail w (roundtrips w) \<and>
           (\<forall>s. u_title upd = Some s \<longrightarrow> trim s \<noteq> []) \<and>
           x = apply_set (map_option trim (u_title upd)) (map_option trim (u_description upd))
                 (u_completed upd) now d0 \<and>
           w' = w\<lparr>roundtrips := Suc (roundtrips w),
                  docs := update_first (\<lambda>y. oid y = i)
                            (apply_set (map_option trim (u_title upd))
                               (map_option trim (u_description upd)) (u_completed upd) now)
                            (docs w)\<rparr>"
  using assms
  by (auto simp: Todo_findByIdAndUpdate_def roundtrip_def Let_def validate_title_def
           split: option.splits if_splits)

lemma findByIdAndUpdate_clean:
  assumes "list_all clean (docs w)" and "Todo_findByIdAndUpdate tid upd now w = (r, w')"
  shows "list_all clean (docs w') \<and> (\<forall>x. r = Inr (Some x) \<longrightarrow> x \<in> set (docs w') \<and> clean x)"
proof (cases "\<exists>x. r = Inr (Some x)")
  case True
  then obtain x where r: "r = Inr (Some x)" ..
  from findByIdAndUpdate_result [OF assms(2) [unfolded r]]
  obtain i d0 where i: "castObjectId tid = Some i" and d0: "lookup i w = Some d0"
    and t: "\<forall>s. u_title upd = Some s \<longrightarrow> trim s \<noteq> []"
    and x: "x = apply_set (map_option trim (u_title upd)) (map_option trim (u_description upd))
                 (u_completed upd) now d0"
    and w': "w' = w\<lparr>roundtrips := Suc (roundtrips w),
                  docs := update_first (\<lambda>y. oid y = i)
                            (apply_set (map_option trim (u_title upd))
                               (map_option trim (u_description upd)) (u_completed upd) now)
                            (docs w)\<rparr>"
    by blast
  have step: "\<And>y. clean y \<Longrightarrow> clean (apply_set (map_option trim (u_title upd))
                 (map_option trim (u_description upd)) (u_completed upd) now y)"
    using t by (intro clean_apply_set) auto
  have "list_all clean (docs w')"
    unfolding w' using assms(1) step by (simp add: list_all_update_first)
  moreover have "x \<in> set (docs w')"
    unfolding w' x using d0 by (simp add: lookup_def update_first_mem)
  ultimately show ?thesis using r by (auto simp: list_all_iff)
next
  case False
  with assms(2) have "docs w' = docs w"
    by (auto simp: Todo_findByIdAndUpdate_def roundtrip_def Let_def
             split: option.splits if_splits)
  with assms(1) False show ?thesis by auto
qed

lemma createTodo_service:
  assumes "TodoService_createTodo now fresh req w = (r, w')"
  shows "\<exists>r0. Todo_save_new now fresh (c_title req) (c_description req) False w = (r0, w') \<and>
           (\<forall>x. r = Inr x \<longleftrightarrow> r0 = Inr x)"
  using assms
  by (auto simp: TodoService_createTodo_def split: prod.splits sum.splits mongoose_error.splits)

lemma updateTodo_service:
  assumes "TodoService_updateTodo now tid upd w = (r, w')"
  shows "(\<not> ObjectId_isValid tid \<and> r = Inr None \<and> w' = w) \<or>
         (ObjectId_isValid tid \<and>
          (\<exists>r0. Todo_findByIdAndUpdate tid upd now w = (r0, w') \<and> (\<forall>x. r = Inr x \<longleftrightarrow> r0 = Inr x)))"
  using assms
  by (auto simp: TodoService_updateTodo_def
           split: prod.splits sum.splits mongoose_error.splits if_splits)

lemma createTodo_controller_clean:
  assumes "list_all clean (docs w)" and "TodoController_createTodo now fresh req w = (r, w')"
  shows "list_all clean (docs w') \<and>
         (status r = 201 \<longrightarrow> (\<exists>d. data r = Some d \<and> d \<in> set (docs w') \<and> clean d))"
proof (cases "\<exists>t. c_title req = Some t \<and> \<not> (t = [] \<or> length (trim t) = 0)")
  case True
  then obtain t where t: "c_title req = Some t" "\<not> (t = [] \<or> length (trim t) = 0)" by blast
  obtain rs ws where s: "TodoService_createTodo now fresh
          \<lparr>c_title = Some (trim t), c_description = map_option trim (c_description req)\<rparr> w = (rs, ws)"
    by (cases "TodoService_createTodo now fresh
          \<lparr>c_title = Some (trim t), c_description = map_option trim (c_description req)\<rparr> w")
  from createTodo_service [OF s] obtain r0 where
    r0: "Todo_save_new now fresh (Some (trim t)) (map_option trim (c_description req)) False w = (r0, ws)"
    and eq: "\<forall>x. rs = Inr x \<longleftrightarrow> r0 = Inr x" by auto
  from save_new_clean [OF assms(1) r0]
  have c: "list_all clean (docs ws)" "\<forall>x. r0 = Inr x \<longrightarrow> x \<in> set (docs ws) \<and> clean x" by auto
  from assms(2) t s have "w' = ws" and "status r = 201 \<longrightarrow> (\<exists>d. rs = Inr d \<and> data r = Some d)"
    by (auto simp: TodoController_createTodo_def split: sum.splits)
  with c eq show ?thesis by auto
next
  case False
  with assms(2) have "w' = w" and "status r = 400"
    by (auto simp: TodoController_createTodo_def split: option.splits if_splits)
  with assms(1) show ?thesis by simp
qed

lemma updateTodo_controller_clean:
  assumes "list_all clean (docs w)" and "TodoController_updateTodo now tid req w = (r, w')"
  shows "list_all clean (docs w') \<and>
         (status r = 200 \<longrightarrow> (\<exists>d. data r = Some d \<and> d \<in> set (docs w') \<and> clean d))"
proof -
  let ?req = "req\<lparr>u_title := map_option trim (u_title req),
                   u_description := map_option trim (u_description req)\<rparr>"
  obtain rs ws where s: "TodoService_updateTodo now tid ?req w = (rs, ws)"
    by (cases "TodoService_updateTodo now tid ?req w")
  from assms(2) s have cases: "(w' = w \<and> status r = 400) \<or>
      (w' = ws \<and> (status r = 200 \<longrightarrow> (\<exists>d. rs = Inr (Some d) \<and> data r = Some d)))"
    by (auto simp: TodoController_updateTodo_def split: sum.splits option.splits if_splits)
  from updateTodo_service [OF s] assms(1)
  have "list_all clean (docs ws) \<and> (\<forall>x. rs = Inr (Some x) \<longrightarrow> x \<in> set (docs ws) \<and> clean x)"
    using findByIdAndUpdate_clean [OF assms(1)] by blast
  with cases assms(1) show ?thesis by auto
qed

lemma clean_toggle: "clean d \<Longrightarrow> clean (d\<lparr>completed := c, updatedAt := t\<rparr>)"
  by (simp add: clean_def)

lemma toggleTodo_clean:
  assumes "list_all clean (docs w)" and "TodoService_toggleTodo now tid w = (r, w')"
  shows "list_all clean (docs w')"
  using assms
  by (auto simp: TodoService_toggleTodo_def Todo_findById_def Todo_save_completed_def
        roundtrip_def Let_def clean_toggle
        intro!: list_all_update_first
        split: option.splits if_splits sum.splits prod.splits)

lemma deleteTodo_clean:
  assumes "list_all clean (docs w)" and "TodoService_deleteTodo tid w = (r, w')"
  shows "list_all clean (docs w')"
  using assms
  by (auto simp: TodoService_deleteTodo_def Todo_findByIdAndDelete_def roundtrip_def Let_def
        list_all_remove_first split: option.splits if_splits)

section \<open>What each operation does to the store\<close>

lemma createTodo_controller_201:
  assumes "TodoController_createTodo now fresh \<lparr>c_title = Some a, c_description = Some b\<rparr> w = (r, w1)"
    and "status r = 201"
  shows "lookup fresh w = None \<and>
         r = \<lparr>status = 201, success = True,
              data = Some \<lparr>oid = fresh, title = trim a, description = Some (trim b),
                           completed = False, createdAt = now, updatedAt = now\<rparr>,
              message = Some ''Todo created successfully'', error = None\<rparr> \<and>
         w1 = w\<lparr>roundtrips := Suc (roundtrips w),
                docs := docs w @ [\<lparr>oid = fresh, title = trim a, description = Some (trim b),
                           completed = False, createdAt = now, updatedAt = now\<rparr>]\<rparr>"
  using assms
  by (auto simp: TodoController_createTodo_def TodoService_createTodo_def Todo_save_new_def
        roundtrip_def Let_def trim_trim
        split: if_splits option.splits sum.splits mongoose_error.splits)

lemma updateTodo_controller_cases:
  assumes "castObjectId tid = Some i" and "lookup i w = Some d0"
    and "TodoController_updateTodo now tid req w = (r, w')"
  shows "(status r = 200 \<and>
          data r = Some (apply_set (map_option trim (u_title req))
                           (map_option trim (u_description req)) (u_completed req) now d0) \<and>
          docs w' = update_first (\<lambda>x. oid x = i)
                      (apply_set (map_option trim (u_title req))
                         (map_option trim (u_description req)) (u_completed req) now) (docs w))
         \<or> (status r \<noteq> 200 \<and> docs w' = docs w)"
  using assms castObjectId_valid [OF assms(1)]
  by (auto simp: TodoController_updateTodo_def TodoService_updateTodo_def
        Todo_findByIdAndUpdate_def roundtrip_def Let_def map_option_trim_trim
        split: if_splits option.splits)

lemma updateTodo_controller_ok:
  assumes "castObjectId tid = Some i" and "lookup i w = Some d0" and "avail w (roundtrips w)"
    and "\<And>t. u_title req = Some t \<Longrightarrow> trim t \<noteq> [] \<and> length (trim t) \<le> 200"
    and "\<And>s. u_description req = Some s \<Longrightarrow> length (trim s) \<le> 1000"
  shows "fst (TodoController_updateTodo now tid req w) =
           \<lparr>status = 200, success = True,
            data = Some (apply_set (map_option trim (u_title req))
                           (map_option trim (u_description req)) (u_completed req) now d0),
            message = Some ''Todo updated successfully'', error = None\<rparr>"
  using assms castObjectId_valid [OF assms(1)] valid_nonempty [of tid]
  by (cases "u_title req"; cases "u_description req")
     (auto simp: TodoController_updateTodo_def TodoService_updateTodo_def
        Todo_findByIdAndUpdate_def roundtrip_def Let_def trim_trim
        validate_title_def validate_description_def)

lemma valid_stored_validators:
  "valid_stored d \<longleftrightarrow>
     validate_title (Some (title d)) @ validate_description (description d) = []"
  by (auto simp: valid_stored_def validate_title_def validate_description_def
        split: option.splits)

lemma valid_stored_toggle:
  "valid_stored (d\<lparr>completed := c, updatedAt := t\<rparr>) = valid_stored d"
  by (simp add: valid_stored_def)

lemma save_new_valid_stored:
  assumes "list_all valid_stored (docs w)" and "Todo_save_new now fresh t d c w = (r, w')"
  shows "list_all valid_stored (docs w')"
  using assms
  by (cases t; cases d)
     (auto simp: Todo_save_new_def roundtrip_def Let_def valid_stored_def
        validate_title_def validate_description_def split: if_splits)

lemma apply_set_valid_stored:
  assumes "valid_stored d0"
    and "(case t of None \<Rightarrow> [] | Some s \<Rightarrow> validate_title (Some s)) @ validate_description d = []"
  shows "valid_stored (apply_set t d c now d0)"
  using assms
  by (cases t; cases d)
     (auto simp: valid_stored_def apply_set_def validate_title_def validate_description_def
        split: if_splits)

lemma findByIdAndUpdate_valid_stored:
  assumes "list_all valid_stored (docs w)"
    and "Todo_findByIdAndUpdate tid upd now w = (r, w')"
  shows "list_all valid_stored (docs w')"
proof (cases "(case map_option trim (u_title upd) of None \<Rightarrow> []
                | Some s \<Rightarrow> validate_title (Some s))
              @ validate_description (map_option trim (u_description upd)) = []")
  case True
  then have "\<And>x. valid_stored x \<Longrightarrow>
      valid_stored (apply_set (map_option trim (u_title upd))
                      (map_option trim (u_description upd)) (u_completed upd) now x)"
    by (rule apply_set_valid_stored [rotated])
  then have "list_all valid_stored
      (update_first P (apply_set (map_option trim (u_title upd))
                         (map_option trim (u_description upd)) (u_completed upd) now) (docs w))"
    for P using assms(1) by (intro list_all_update_first)
  with assms show ?thesis
    by (auto simp: Todo_findByIdAndUpdate_def roundtrip_def Let_def
          split: option.splits if_splits)
next
  case False
  with assms show ?thesis
    by (auto simp: Todo_findByIdAndUpdate_def roundtrip_def Let_def
          split: option.splits if_splits)
qed

lemma toggle_cases:
  assumes "castObjectId tid = Some i" and "lookup i w = Some d0"
    and "TodoService_toggleTodo now tid w = (r, w')"
  shows "(r = Inr (Some (d0\<lparr>completed := \<not> completed d0, updatedAt := now\<rparr>)) \<and>
          avail w (roundtrips w) \<and> avail w (Suc (roundtrips w)) \<and> valid_stored d0 \<and>
          docs w' = update_first (\<lambda>x. oid x = i)
                      (\<lambda>x. x\<lparr>completed := \<not> completed d0, updatedAt := now\<rparr>) (docs w))
         \<or> (r = Inl ''Failed to toggle todo'' \<and>
             \<not> (avail w (roundtrips w) \<and> avail w (Suc (roundtrips w)) \<and> valid_stored d0) \<and>
             docs w' = docs w)"
proof (cases "valid_stored d0")
  case True
  then have v: "validate_title (Some (title d0)) @ validate_description (description d0) = []"
    by (simp add: valid_stored_validators)
  from assms castObjectId_valid [OF assms(1)] lookup_oid [OF assms(2)] True v show ?thesis
    by (auto simp: TodoService_toggleTodo_def Todo_findById_def Todo_save_completed_def
          roundtrip_def Let_def lookup_def split: if_splits)
next
  case False
  then have v: "validate_title (Some (title d0)) @ validate_description (description d0) \<noteq> []"
    by (simp add: valid_stored_validators)
  from assms castObjectId_valid [OF assms(1)] lookup_oid [OF assms(2)] False v show ?thesis
    by (auto simp: TodoService_toggleTodo_def Todo_findById_def Todo_save_completed_def
          roundtrip_def Let_def lookup_def split: if_splits)
qed

text \<open>
  A stored title of 201 code units: the save is refused and Toggle writes nothing.
\<close>

lemma toggle_rejects_long_title:
  "castObjectId sample_id = Some sample_id \<and>
   lookup sample_id long_title_world = Some long_title_todo \<and>
   fst (TodoService_toggleTodo 2000 sample_id long_title_world) = Inl ''Failed to toggle todo'' \<and>
   docs (snd (TodoService_toggleTodo 2000 sample_id long_title_world)) = docs long_title_world"
  by (simp add: TodoService_toggleTodo_def Todo_findById_def Todo_save_completed_def
        roundtrip_def Let_def lookup_def castObjectId_def ObjectId_isValid_def isHexDigit_def
        lowerHex_def validate_title_def validate_description_def
        long_title_world_def long_title_todo_def sample_id_def utf16_def)

lemma toggle_avail:
  "TodoService_toggleTodo now tid w = (r, w') \<Longrightarrow> avail w' = avail w"
  by (auto simp: TodoService_toggleTodo_def Todo_findById_def Todo_save_completed_def
        roundtrip_def Let_def split: if_splits option.splits sum.splits prod.splits)

lemma deleteTodo_invalid:
  "\<not> ObjectId_isValid tid \<Longrightarrow> TodoService_deleteTodo tid w = (Inr False, w)"
  by (simp add: TodoService_deleteTodo_def)

lemma deleteTodo_ok:
  assumes "castObjectId tid = Some i" and "avail w (roundtrips w)"
  shows "TodoService_deleteTodo tid w =
           (Inr (lookup i w \<noteq> None),
            w\<lparr>roundtrips := Suc (roundtrips w),
              docs := remove_first (\<lambda>x. oid x = i) (docs w)\<rparr>)"
  using assms castObjectId_valid [OF assms(1)]
  by (simp add: TodoService_deleteTodo_def Todo_findByIdAndDelete_def roundtrip_def)

lemma getTodosPaginated_ok:
  assumes "1 \<le> pg" and "1 \<le> limit"
    and "avail w (roundtrips w)" and "avail w (Suc (roundtrips w))"
  shows "TodoService_getTodosPaginated pg limit st w =
           (Inr \<lparr>todos = take (nat limit) (drop (nat ((pg - 1) * limit))
                            (newest_first (matching st w))),
                 total = int (length (matching st w)), page = pg,
                 totalPages = Num (- ((- int (length (matching st w))) div limit))\<rparr>,
            w\<lparr>roundtrips := Suc (Suc (roundtrips w))\<rparr>)"
proof -
  have "0 \<le> (pg - 1) * limit" using assms(1,2) by simp
  then have "\<not> (pg - 1) * limit < 0" by simp
  with assms show ?thesis
    by (simp add: TodoService_getTodosPaginated_def Todo_find_page_def Todo_countDocuments_def
          roundtrip_def Let_def apply_limit_def Math_ceil_div_def matching_def)
qed

section \<open>Identifiers stay distinct\<close>

lemma createTodo_distinct:
  assumes "distinct (map oid (docs w))" and "TodoService_createTodo now fresh req w = (r, w')"
  shows "distinct (map oid (docs w'))"
  using assms
  by (auto simp: TodoService_createTodo_def Todo_save_new_def roundtrip_def Let_def lookup_def
        find_None_iff_oid
        split: option.splits if_splits sum.splits mongoose_error.splits)

lemma updateTodo_distinct:
  assumes "distinct (map oid (docs w))" and "TodoService_updateTodo now tid req w = (r, w')"
  shows "distinct (map oid (docs w'))"
proof -
  have "map oid (docs w') = map oid (docs w)"
    using assms(2)
    by (auto simp: TodoService_updateTodo_def Todo_findByIdAndUpdate_def roundtrip_def Let_def
          oid_apply_set map_update_first
          split: option.splits if_splits sum.splits mongoose_error.splits)
  with assms(1) show ?thesis by simp
qed

lemma toggleTodo_distinct:
  assumes "distinct (map oid (docs w))" and "TodoService_toggleTodo now tid w = (r, w')"
  shows "distinct (map oid (docs w'))"
proof -
  have "map oid (docs w') = map oid (docs w)"
    using assms(2)
    by (auto simp: TodoService_toggleTodo_def Todo_findById_def Todo_save_completed_def
          roundtrip_def Let_def map_update_first
          split: option.splits if_splits sum.splits prod.splits)
  with assms(1) show ?thesis by simp
qed

lemma deleteTodo_distinct:
  assumes "distinct (map oid (docs w))" and "TodoService_deleteTodo tid w = (r, w')"
  shows "distinct (map oid (docs w'))"
  using assms
  by (auto simp: TodoService_deleteTodo_def Todo_findByIdAndDelete_def roundtrip_def Let_def
        distinct_remove_first split: option.splits if_splits)

lemmas eval_defs =
  sample_id_def other_id_def bad_id_def sample_todo_def sample_world_def offline_world_def
  utf16_def padded_create_def blank_create_def absent_create_def ab_create_def
  padded_update_def blank_update_def done_update_def empty_update_def
  TodoController_createTodo_def TodoController_updateTodo_def TodoController_getTodoById_def
  TodoService_createTodo_def TodoService_updateTodo_def TodoService_getTodoById_def
  TodoService_deleteTodo_def TodoService_toggleTodo_def
  Todo_save_new_def Todo_findByIdAndUpdate_def Todo_findById_def Todo_findByIdAndDelete_def
  Todo_save_completed_def roundtrip_def lookup_def apply_set_def
  validate_title_def validate_description_def castObjectId_def ObjectId_isValid_def
  isObjectId_def isHexDigit_def lowerHex_def trim_def isWhiteSpace_def clean_def
  startsWithSpace_def endsWithSpace_def Let_def

section \<open>The claims\<close>

text \<open>
  C1 (trim invariant). From a store whose todos are all clean, a Create and an Update leave
  a store whose todos are all clean; the todo returned by a successful Create (201) or
  Update (200) is stored and clean: its title and description neither begin nor end with
  white space and its title is neither empty nor white space only. A Create whose title is
  absent or empty after trimming, and an Update whose title is present and empty after
  trimming, answer 400 and leave the world as it was.
\<close>

theorem trim_invariant:
  assumes "list_all clean (docs w)"
    and "TodoController_createTodo now fresh creq w = (rc, wc)"
    and "TodoController_updateTodo now tid ureq w = (ru, wu)"
  shows "list_all clean (docs wc) \<and> list_all clean (docs wu) \<and>
     (status rc = 201 \<longrightarrow> (\<exists>d. data rc = Some d \<and> d \<in> set (docs wc) \<and> clean d)) \<and>
     (status ru = 200 \<longrightarrow> (\<exists>d. data ru = Some d \<and> d \<in> set (docs wu) \<and> clean d)) \<and>
     ((c_title creq = None \<or> (\<exists>t. c_title creq = Some t \<and> trim t = [])) \<longrightarrow>
        status rc = 400 \<and> wc = w) \<and>
     ((\<exists>t. u_title ureq = Some t \<and> trim t = []) \<longrightarrow> status ru = 400 \<and> wu = w)"
proof -
  have "(c_title creq = None \<or> (\<exists>t. c_title creq = Some t \<and> trim t = [])) \<longrightarrow>
        status rc = 400 \<and> wc = w"
    using assms(2) by (auto simp: TodoController_createTodo_def)
  moreover have "(\<exists>t. u_title ureq = Some t \<and> trim t = []) \<longrightarrow> status ru = 400 \<and> wu = w"
    using assms(3) by (auto simp: TodoController_updateTodo_def split: if_splits)
  ultimately show ?thesis
    using createTodo_controller_clean [OF assms(1,2)] updateTodo_controller_clean [OF assms(1,3)]
    by blast
qed

theorem trim_invariant_witness:
  "list_all clean (docs sample_world) \<and>
   status (fst (TodoController_createTodo 2000 other_id padded_create sample_world)) = 201 \<and>
   (\<exists>d. data (fst (TodoController_createTodo 2000 other_id padded_create sample_world)) = Some d \<and>
        d \<in> set (docs (snd (TodoController_createTodo 2000 other_id padded_create sample_world))) \<and>
        clean d) \<and>
   status (fst (TodoController_updateTodo 2000 sample_id padded_update sample_world)) = 200 \<and>
   (\<exists>d. data (fst (TodoController_updateTodo 2000 sample_id padded_update sample_world)) = Some d \<and>
        d \<in> set (docs (snd (TodoController_updateTodo 2000 sample_id padded_update sample_world))) \<and>
        clean d) \<and>
   list_all clean (docs (snd (TodoController_createTodo 2000 other_id padded_create sample_world))) \<and>
   list_all clean (docs (snd (TodoController_updateTodo 2000 sample_id padded_update sample_world))) \<and>
   status (fst (TodoController_createTodo 2000 other_id blank_create sample_world)) = 400 \<and>
   snd (TodoController_createTodo 2000 other_id blank_create sample_world) = sample_world \<and>
   status (fst (TodoController_updateTodo 2000 sample_id blank_update sample_world)) = 400 \<and>
   snd (TodoController_updateTodo 2000 sample_id blank_update sample_world) = sample_world"
proof -
  have inv: "list_all clean (docs sample_world)"
    by (simp add: eval_defs)
  have c201: "status (fst (TodoController_createTodo 2000 other_id padded_create sample_world)) = 201"
    by (simp add: eval_defs)
  have u200: "status (fst (TodoController_updateTodo 2000 sample_id padded_update sample_world)) = 200"
    by (simp add: eval_defs)
  have cblank: "c_title blank_create = None \<or> (\<exists>t. c_title blank_create = Some t \<and> trim t = [])"
    by (simp add: eval_defs)
  have ublank: "\<exists>t. u_title blank_update = Some t \<and> trim t = []"
    by (simp add: eval_defs)
  note padded = trim_invariant [OF inv surjective_pairing surjective_pairing,
      of 2000 other_id padded_create sample_id padded_update]
  note blank = trim_invariant [OF inv surjective_pairing surjective_pairing,
      of 2000 other_id blank_create sample_id blank_update]
  from inv c201 u200 cblank ublank padded blank show ?thesis
    by blast
qed

text \<open>
  C2 (validation before storage). A Create whose title is absent or trims to the empty
  string, and an Update whose title is present and trims to the empty string, answer 400
  and return the world they were given: no round trip to the store was issued (the
  counter is the same, and the answer does not depend on the store being reachable) and
  no stored todo was created or changed.
\<close>

theorem validation_before_storage:
  assumes "c_title creq = None \<or> (\<exists>t. c_title creq = Some t \<and> trim t = [])"
    and "\<exists>t. u_title ureq = Some t \<and> trim t = []"
  shows "status (fst (TodoController_createTodo now fresh creq w)) = 400 \<and>
         snd (TodoController_createTodo now fresh creq w) = w \<and>
         status (fst (TodoController_updateTodo now tid ureq w)) = 400 \<and>
         snd (TodoController_updateTodo now tid ureq w) = w"
proof -
  from assms(1) have "status (fst (TodoController_createTodo now fresh creq w)) = 400 \<and>
         snd (TodoController_createTodo now fresh creq w) = w"
    by (auto simp: TodoController_createTodo_def)
  moreover from assms(2) have "status (fst (TodoController_updateTodo now tid ureq w)) = 400 \<and>
         snd (TodoController_updateTodo now tid ureq w) = w"
    by (auto simp: TodoController_updateTodo_def)
  ultimately show ?thesis by simp
qed

theorem validation_before_storage_witness:
  "status (fst (TodoController_createTodo 2000 other_id blank_create offline_world)) = 400 \<and>
   snd (TodoController_createTodo 2000 other_id blank_create offline_world) = offline_world \<and>
   status (fst (TodoController_createTodo 2000 other_id absent_create offline_world)) = 400 \<and>
   snd (TodoController_createTodo 2000 other_id absent_create offline_world) = offline_world \<and>
   status (fst (TodoController_updateTodo 2000 sample_id blank_update offline_world)) = 400 \<and>
   snd (TodoController_updateTodo 2000 sample_id blank_update offline_world) = offline_world \<and>
   docs offline_world = [sample_todo] \<and> roundtrips offline_world = 3"
proof -
  have c: "c_title blank_create = None \<or> (\<exists>t. c_title blank_create = Some t \<and> trim t = [])"
    by (simp add: eval_defs)
  have n: "c_title absent_create = None \<or> (\<exists>t. c_title absent_create = Some t \<and> trim t = [])"
    by (simp add: absent_create_def)
  have u: "\<exists>t. u_title blank_update = Some t \<and> trim t = []"
    by (simp add: eval_defs)
  from validation_before_storage [OF c u, of 2000 other_id offline_world sample_id]
    validation_before_storage [OF n u, of 2000 other_id offline_world sample_id]
  show ?thesis by (simp add: offline_world_def)
qed

text \<open>
  C3 (Get by id, not found). For an id that is not a valid store identifier the service
  returns \<open>null\<close> without touching the world, whether or not the store can be reached,
  so no storage error can be thrown. For a valid id that no stored todo has, the service
  returns \<open>null\<close> when the query is answered. The handler turns both into the same 404
  response.
\<close>

theorem get_by_id_not_found:
  "(\<not> ObjectId_isValid tid \<longrightarrow> TodoService_getTodoById tid w = (Inr None, w)) \<and>
   (\<forall>i. castObjectId tid = Some i \<and> lookup i w = None \<and> avail w (roundtrips w) \<longrightarrow>
        fst (TodoService_getTodoById tid w) = Inr None \<and>
        docs (snd (TodoService_getTodoById tid w)) = docs w) \<and>
   (tid \<noteq> [] \<and>
    (\<not> ObjectId_isValid tid \<or>
     (\<exists>i. castObjectId tid = Some i \<and> lookup i w = None \<and> avail w (roundtrips w))) \<longrightarrow>
      fst (TodoController_getTodoById tid w) =
        \<lparr>status = 404, success = False, data = None,
         message = Some ''Todo not found'', error = None\<rparr>)"
  by (auto simp: TodoService_getTodoById_def TodoController_getTodoById_def Todo_findById_def
        roundtrip_def castObjectId_def split: if_splits)

theorem get_by_id_not_found_witness:
  "TodoService_getTodoById bad_id offline_world = (Inr None, offline_world) \<and>
   fst (TodoService_getTodoById other_id sample_world) = Inr None \<and>
   fst (TodoController_getTodoById bad_id offline_world) =
     \<lparr>status = 404, success = False, data = None,
      message = Some ''Todo not found'', error = None\<rparr> \<and>
   fst (TodoController_getTodoById other_id sample_world) =
     \<lparr>status = 404, success = False, data = None,
      message = Some ''Todo not found'', error = None\<rparr>"
proof -
  have bad: "\<not> ObjectId_isValid bad_id"
    by (simp add: eval_defs)
  have nonempty: "bad_id \<noteq> []" "other_id \<noteq> []"
    by (simp_all add: eval_defs)
  have absent: "castObjectId other_id = Some other_id \<and> lookup other_id sample_world = None \<and>
                avail sample_world (roundtrips sample_world)"
    by (simp add: eval_defs)
  from get_by_id_not_found [of bad_id offline_world]
    get_by_id_not_found [of other_id sample_world] bad nonempty absent
  show ?thesis by blast
qed

text \<open>
  C4 (partial update). For an id that a stored todo has and any update request, the todo
  stored under that id afterwards has the same id and creation time, and every one of
  title, description and completed that is absent from the request has its stored value;
  when the update succeeds (200) the fields that are present have the requested values,
  title and description trimmed, and \<open>updatedAt\<close> is the current time. Todos under
  other ids are untouched. In particular the request \<open>{completed: true}\<close>,
  when the store answers, succeeds, keeps title and description and sets completed.
\<close>

theorem partial_update:
  assumes "castObjectId tid = Some i" and "lookup i w = Some d0"
    and "TodoController_updateTodo now tid req w = (r, w')"
  shows "\<exists>d1. lookup i w' = Some d1 \<and> oid d1 = oid d0 \<and> createdAt d1 = createdAt d0 \<and>
      (u_title req = None \<longrightarrow> title d1 = title d0) \<and>
      (u_description req = None \<longrightarrow> description d1 = description d0) \<and>
      (u_completed req = None \<longrightarrow> completed d1 = completed d0) \<and>
      (status r = 200 \<longrightarrow>
         data r = Some d1 \<and>
         (\<forall>t. u_title req = Some t \<longrightarrow> title d1 = trim t) \<and>
         (\<forall>s. u_description req = Some s \<longrightarrow> description d1 = Some (trim s)) \<and>
         (\<forall>b. u_completed req = Some b \<longrightarrow> completed d1 = b) \<and>
         updatedAt d1 = now) \<and>
      (\<forall>j. j \<noteq> i \<longrightarrow> lookup j w' = lookup j w) \<and>
      (u_title req = None \<and> u_description req = None \<and> u_completed req = Some True \<and>
       avail w (roundtrips w) \<longrightarrow>
         status r = 200 \<and> title d1 = title d0 \<and> description d1 = description d0 \<and>
         completed d1)"
proof -
  let ?f = "apply_set (map_option trim (u_title req)) (map_option trim (u_description req))
              (u_completed req) now"
  have scen: "u_title req = None \<and> u_description req = None \<and> avail w (roundtrips w) \<longrightarrow>
              status r = 200"
    using updateTodo_controller_ok [OF assms(1,2), of req now] assms(3) by auto
  from updateTodo_controller_cases [OF assms]
  show ?thesis
  proof
    assume ok: "status r = 200 \<and> data r = Some (?f d0) \<and>
                docs w' = update_first (\<lambda>x. oid x = i) ?f (docs w)"
    have "lookup i w' = Some (?f d0) \<and> (\<forall>j. j \<noteq> i \<longrightarrow> lookup j w' = lookup j w)"
      using assms(2) _ conjunct2 [OF conjunct2 [OF ok]]
      by (rule lookup_after_update) (rule oid_apply_set)
    with ok show ?thesis
      by (intro exI [of _ "?f d0"]) (auto simp: apply_set_def)
  next
    assume no: "status r \<noteq> 200 \<and> docs w' = docs w"
    then have "lookup j w' = lookup j w" for j by (simp add: lookup_def)
    with no scen assms(2) show ?thesis
      by (intro exI [of _ d0]) auto
  qed
qed

theorem partial_update_witness:
  "castObjectId sample_id = Some sample_id \<and>
   lookup sample_id sample_world = Some sample_todo \<and>
   (\<exists>d1. lookup sample_id
            (snd (TodoController_updateTodo 2000 sample_id done_update sample_world)) = Some d1 \<and>
         status (fst (TodoController_updateTodo 2000 sample_id done_update sample_world)) = 200 \<and>
         title d1 = title sample_todo \<and> description d1 = description sample_todo \<and>
         completed d1 \<and> oid d1 = oid sample_todo \<and> createdAt d1 = createdAt sample_todo) \<and>
   (\<exists>d2. lookup sample_id
            (snd (TodoController_updateTodo 2000 sample_id padded_update sample_world)) = Some d2 \<and>
         title d2 = utf16 ''Walk dog'' \<and> description d2 = description sample_todo \<and>
         completed d2 = completed sample_todo)"
proof -
  have c: "castObjectId sample_id = Some sample_id"
    by (simp add: eval_defs)
  have l: "lookup sample_id sample_world = Some sample_todo"
    by (simp add: eval_defs)
  have a: "avail sample_world (roundtrips sample_world)"
    by (simp add: sample_world_def)
  have f: "u_title done_update = None" "u_description done_update = None"
    "u_completed done_update = Some True"
    by (simp_all add: done_update_def)
  have s: "status (fst (TodoController_updateTodo 2000 sample_id padded_update sample_world)) = 200"
    by (simp add: eval_defs)
  have p: "u_title padded_update = Some (utf16 '' Walk dog '')"
    "u_description padded_update = None" "u_completed padded_update = None"
    by (simp_all add: padded_update_def)
  have t: "trim (utf16 '' Walk dog '') = utf16 ''Walk dog''"
    by (simp add: eval_defs)
  from partial_update [OF c l surjective_pairing, where now = 2000 and req = done_update] a f
  obtain d1 where "lookup sample_id
            (snd (TodoController_updateTodo 2000 sample_id done_update sample_world)) = Some d1"
    "status (fst (TodoController_updateTodo 2000 sample_id done_update sample_world)) = 200"
    "title d1 = title sample_todo" "description d1 = description sample_todo"
    "completed d1" "oid d1 = oid sample_todo" "createdAt d1 = createdAt sample_todo"
    by blast
  moreover
  from partial_update [OF c l surjective_pairing, where now = 2000 and req = padded_update] s p
  obtain d2 where "lookup sample_id
            (snd (TodoController_updateTodo 2000 sample_id padded_update sample_world)) = Some d2"
    "title d2 = trim (utf16 '' Walk dog '')" "description d2 = description sample_todo"
    "completed d2 = completed sample_todo"
    by blast
  ultimately show ?thesis using c l t by auto
qed

text \<open>
  C5 (toggle involution). For an id that a stored todo has, with a store that answers
  every call and no other write in between, one Toggle returns and stores the todo with
  its completed flag flipped, and a second Toggle returns and stores it with the flag it
  had at first. The stored todo passes the schema's validators (title not empty and at
  most 200 code units, description at most 1000), which saving a loaded document checks
  again; every todo that Create or Update stored does.
\<close>

theorem toggle_involution:
  assumes "castObjectId tid = Some i" and "lookup i w = Some d0" and "reliable w"
    and "valid_stored d0"
    and "TodoService_toggleTodo now tid w = (r1, w1)"
    and "TodoService_toggleTodo later tid w1 = (r2, w2)"
  shows "\<exists>d1 d2. r1 = Inr (Some d1) \<and> lookup i w1 = Some d1 \<and>
           completed d1 = (\<not> completed d0) \<and>
           r2 = Inr (Some d2) \<and> lookup i w2 = Some d2 \<and> completed d2 = completed d0"
proof -
  let ?f = "\<lambda>t c x. x\<lparr>completed := c, updatedAt := t\<rparr>"
  let ?d1 = "?f now (\<not> completed d0) d0"
  have a: "avail w n" for n using assms(3) by (simp add: reliable_def)
  from toggle_cases [OF assms(1,2,5)] a assms(4)
  have r1: "r1 = Inr (Some ?d1)"
    and dw1: "docs w1 = update_first (\<lambda>x. oid x = i) (?f now (\<not> completed d0)) (docs w)"
    by auto
  have l1: "lookup i w1 = Some ?d1"
    using lookup_after_update [OF assms(2) _ dw1] by simp
  have a1: "avail w1 n" for n using toggle_avail [OF assms(5)] a by simp
  let ?d2 = "?f later (\<not> completed ?d1) ?d1"
  have v1: "valid_stored ?d1" using assms(4) by (simp add: valid_stored_toggle)
  from toggle_cases [OF assms(1) l1 assms(6)] a1 v1
  have r2: "r2 = Inr (Some ?d2)"
    and dw2: "docs w2 = update_first (\<lambda>x. oid x = i) (?f later (\<not> completed ?d1)) (docs w1)"
    by auto
  have l2: "lookup i w2 = Some ?d2"
    using lookup_after_update [OF l1 _ dw2] by simp
  from r1 l1 r2 l2 show ?thesis by simp
qed

theorem toggle_involution_witness:
  "\<not> completed sample_todo \<and>
   (\<exists>d1 d2.
      fst (TodoService_toggleTodo 2000 sample_id sample_world) = Inr (Some d1) \<and> completed d1 \<and>
      fst (TodoService_toggleTodo 3000 sample_id
             (snd (TodoService_toggleTodo 2000 sample_id sample_world))) = Inr (Some d2) \<and>
      \<not> completed d2)"
proof -
  have c: "castObjectId sample_id = Some sample_id"
    by (simp add: eval_defs)
  have l: "lookup sample_id sample_world = Some sample_todo"
    by (simp add: eval_defs)
  have r: "reliable sample_world"
    by (simp add: reliable_def sample_world_def)
  have t: "valid_stored sample_todo"
    by (simp add: valid_stored_def sample_todo_def utf16_def)
  have n: "\<not> completed sample_todo"
    by (simp add: sample_todo_def)
  from toggle_involution [OF c l r t surjective_pairing surjective_pairing,
      where now = 2000 and later = 3000] n
  show ?thesis by auto
qed

text \<open>
  C6 (Create/Get round trip). When a Create with a title and a description succeeds (201)
  and the following Get on the returned id is answered by the store, the Get returns
  (200) the todo that the Create returned; for a title and a description without
  surrounding white space, such as "A" and "B", that todo has exactly this title and
  description, is not completed, and its \<open>createdAt\<close> equals its \<open>updatedAt\<close>. The
  identifier the driver generates is a canonical object id.
\<close>

theorem create_get_roundtrip:
  assumes "isObjectId fresh"
    and "TodoController_createTodo now fresh \<lparr>c_title = Some a, c_description = Some b\<rparr> w = (r, w1)"
    and "status r = 201"
    and "trim a = a" and "trim b = b"
    and "avail w1 (roundtrips w1)"
  shows "\<exists>d. data r = Some d \<and> oid d = fresh \<and>
           fst (TodoService_getTodoById (oid d) w1) = Inr (Some d) \<and>
           fst (TodoController_getTodoById (oid d) w1) =
             \<lparr>status = 200, success = True, data = Some d, message = None, error = None\<rparr> \<and>
           title d = a \<and> description d = Some b \<and> \<not> completed d \<and>
           createdAt d = updatedAt d"
proof -
  let ?d = "\<lparr>oid = fresh, title = trim a, description = Some (trim b),
             completed = False, createdAt = now, updatedAt = now\<rparr>"
  from createTodo_controller_201 [OF assms(2,3)]
  have new: "lookup fresh w = None" and r: "data r = Some ?d"
    and w1: "docs w1 = docs w @ [?d]" by simp_all
  have l: "lookup fresh w1 = Some ?d"
    using new by (simp add: lookup_def w1 find_append_new)
  have c: "castObjectId fresh = Some fresh" using assms(1) by (rule castObjectId_canonical)
  have v: "ObjectId_isValid fresh" using c by (rule castObjectId_valid)
  have s: "fst (TodoService_getTodoById fresh w1) = Inr (Some ?d)"
    using c v l assms(6)
    by (simp add: TodoService_getTodoById_def Todo_findById_def roundtrip_def)
  have "fst (TodoController_getTodoById fresh w1) =
          \<lparr>status = 200, success = True, data = Some ?d, message = None, error = None\<rparr>"
    using s valid_nonempty [OF v]
    by (cases "TodoService_getTodoById fresh w1") (simp add: TodoController_getTodoById_def)
  with r s assms(4,5) show ?thesis by (intro exI [of _ ?d]) simp
qed

theorem create_get_roundtrip_witness:
  "\<exists>d. data (fst (TodoController_createTodo 2000 other_id ab_create sample_world)) = Some d \<and>
       fst (TodoController_getTodoById (oid d)
              (snd (TodoController_createTodo 2000 other_id ab_create sample_world))) =
         \<lparr>status = 200, success = True, data = Some d, message = None, error = None\<rparr> \<and>
       title d = utf16 ''A'' \<and> description d = Some (utf16 ''B'') \<and> \<not> completed d \<and>
       createdAt d = updatedAt d"
proof -
  let ?c = "TodoController_createTodo 2000 other_id
              \<lparr>c_title = Some (utf16 ''A''), c_description = Some (utf16 ''B'')\<rparr> sample_world"
  have i: "isObjectId other_id"
    by (simp add: eval_defs)
  have s: "status (fst ?c) = 201"
    by (simp add: eval_defs)
  have ta: "trim (utf16 ''A'') = utf16 ''A''" and tb: "trim (utf16 ''B'') = utf16 ''B''"
    by (simp_all add: eval_defs)
  have av: "avail (snd ?c) (roundtrips (snd ?c))"
    by (simp add: eval_defs)
  from create_get_roundtrip [OF i surjective_pairing s ta tb av]
  show ?thesis unfolding ab_create_def by blast
qed

text \<open>
  C7 (paginated list arithmetic). For page \<open>\<ge> 1\<close> and \<open>1 \<le> limit \<le> 100\<close>, with a store
  that answers both queries, the service returns the todos selected by the status filter,
  newest first, without the first \<open>(page - 1) * limit\<close> and cut to \<open>limit\<close>; \<open>total\<close> is
  the number of todos selected by the same filter and \<open>totalPages\<close> is the ceiling of
  \<open>total / limit\<close>. The handler answers 200 with these and \<open>hasNext = page < totalPages\<close>.
  On any store of 25 todos with no status filter, page 3 with limit 10 has
  \<open>totalPages = 3\<close>, exactly 5 todos and no next page.
\<close>

theorem paginated_arithmetic:
  assumes "1 \<le> pg" and "1 \<le> limit" and "limit \<le> 100"
    and "avail w (roundtrips w)" and "avail w (Suc (roundtrips w))"
    and "TodoService_getTodosPaginated pg limit st w = (r, w')"
    and "TodoController_getPaginatedTodos (Some pg) (Some limit) st w = (resp, w'')"
  shows "\<exists>res. r = Inr res \<and> docs w' = docs w \<and>
      todos res = take (nat limit) (drop (nat ((pg - 1) * limit))
                    (newest_first (filter (matches (status_filter st)) (docs w)))) \<and>
      total res = int (length (filter (matches (status_filter st)) (docs w))) \<and>
      totalPages res = Num \<lceil>real_of_int (total res) / real_of_int limit\<rceil> \<and>
      page res = pg \<and>
      status resp = 200 \<and> data resp = Some (todos res) \<and>
      pagination resp = Some \<lparr>pg_page = pg, pg_limit = limit, pg_total = total res,
                              pg_totalPages = totalPages res,
                              hasNext = js_less pg (totalPages res), hasPrev = (pg > 1)\<rparr> \<and>
      (length (docs w) = 25 \<and> status_filter st = NoFilter \<and> pg = 3 \<and> limit = 10 \<longrightarrow>
         totalPages res = Num 3 \<and> length (todos res) = 5 \<and>
         \<not> js_less pg (totalPages res))"
proof -
  let ?res = "\<lparr>todos = take (nat limit) (drop (nat ((pg - 1) * limit))
                            (newest_first (matching st w))),
               total = int (length (matching st w)), page = pg,
               totalPages = Num (- ((- int (length (matching st w))) div limit))\<rparr>"
  note ok = getTodosPaginated_ok [OF assms(1,2,4,5), of st]
  from ok assms(6) have r: "r = Inr ?res" and w': "docs w' = docs w" by auto
  have ceil: "\<lceil>real_of_int (int (length (matching st w))) / real_of_int limit\<rceil> =
              - ((- int (length (matching st w))) div limit)"
    by (rule ceiling_divide_eq_div)
  have dflt: "or_default (Some pg) 1 = pg" "or_default (Some limit) 10 = limit"
    using assms(1,2) by (auto simp: or_default_def)
  have resp: "status resp = 200 \<and> data resp = Some (todos ?res) \<and>
      pagination resp = Some \<lparr>pg_page = pg, pg_limit = limit, pg_total = total ?res,
                              pg_totalPages = totalPages ?res,
                              hasNext = js_less pg (totalPages ?res), hasPrev = (pg > 1)\<rparr>"
    using assms(1,2,3,7) ok
    by (auto simp: TodoController_getPaginatedTodos_def dflt Let_def)
  have scen: "length (docs w) = 25 \<and> status_filter st = NoFilter \<and> pg = 3 \<and> limit = 10 \<longrightarrow>
         totalPages ?res = Num 3 \<and> length (todos ?res) = 5 \<and> \<not> js_less pg (totalPages ?res)"
    by (auto simp: matching_all length_newest_first)
  from r w' ceil resp scen show ?thesis
    by (intro exI [of _ ?res]) (simp add: matching_def)
qed

theorem paginated_arithmetic_witness:
  "\<exists>res. fst (TodoService_getTodosPaginated 3 10 (Some (utf16 ''all'')) twenty_five) = Inr res \<and>
      total res = 25 \<and> totalPages res = Num 3 \<and> length (todos res) = 5 \<and> page res = 3 \<and>
      status (fst (TodoController_getPaginatedTodos (Some 3) (Some 10) (Some (utf16 ''all''))
                     twenty_five)) = 200 \<and>
      data (fst (TodoController_getPaginatedTodos (Some 3) (Some 10) (Some (utf16 ''all''))
                   twenty_five)) = Some (todos res) \<and>
      pagination (fst (TodoController_getPaginatedTodos (Some 3) (Some 10) (Some (utf16 ''all''))
                         twenty_five)) =
        Some \<lparr>pg_page = 3, pg_limit = 10, pg_total = 25, pg_totalPages = Num 3,
              hasNext = False, hasPrev = True\<rparr>"
proof -
  have a: "avail twenty_five (roundtrips twenty_five)"
    "avail twenty_five (Suc (roundtrips twenty_five))"
    by (simp_all add: twenty_five_def)
  have n: "length (docs twenty_five) = 25"
    by (simp add: twenty_five_def)
  have f: "status_filter (Some (utf16 ''all'')) = NoFilter"
    by (simp add: status_filter_def utf16_def)
  have b: "(1::int) \<le> 3" "(1::int) \<le> 10" "(10::int) \<le> 100"
    by simp_all
  from paginated_arithmetic [OF b a surjective_pairing surjective_pairing,
      where st = "Some (utf16 ''all'')"] n f
  show ?thesis by auto
qed

text \<open>
  C8 (Delete). With distinct stored ids and a store that answers every call, Delete
  returns true exactly when the stored todos changed, that is, when the todo with the id
  was removed: it is gone afterwards, the store is one todo shorter and the others are
  untouched. It returns false for an id that is not a valid identifier (without a call to
  the store) and for a valid id that no stored todo has, with the same value in both
  cases; a second Delete of the same id returns false and changes nothing.
\<close>

theorem delete_detection:
  assumes "distinct (map oid (docs w))" and "reliable w"
    and "TodoService_deleteTodo tid w = (r, w1)"
    and "TodoService_deleteTodo tid w1 = (r2, w2)"
  shows "r = Inr (docs w1 \<noteq> docs w) \<and>
         (\<not> ObjectId_isValid tid \<longrightarrow> r = Inr False \<and> w1 = w) \<and>
         (\<forall>i. castObjectId tid = Some i \<and> lookup i w = None \<longrightarrow> r = Inr False) \<and>
         (\<forall>i d. castObjectId tid = Some i \<and> lookup i w = Some d \<longrightarrow>
              r = Inr True \<and> lookup i w1 = None \<and>
              Suc (length (docs w1)) = length (docs w) \<and>
              (\<forall>j. j \<noteq> i \<longrightarrow> lookup j w1 = lookup j w)) \<and>
         r2 = Inr False \<and> docs w2 = docs w1"
proof (cases "castObjectId tid")
  case None
  then have "\<not> ObjectId_isValid tid" by (simp add: castObjectId_None)
  with assms(3,4) None show ?thesis by (auto simp: deleteTodo_invalid)
next
  case (Some i)
  have a: "avail w n" for n using assms(2) by (simp add: reliable_def)
  let ?w1 = "w\<lparr>roundtrips := Suc (roundtrips w),
              docs := remove_first (\<lambda>x. oid x = i) (docs w)\<rparr>"
  from deleteTodo_ok [OF Some a] assms(3)
  have r: "r = Inr (lookup i w \<noteq> None)" and w1: "w1 = ?w1" by simp_all
  have gone: "lookup i w1 = None"
    using assms(1) by (simp add: w1 lookup_def find_remove_first_same)
  have others: "\<forall>j. j \<noteq> i \<longrightarrow> lookup j w1 = lookup j w"
    by (auto simp: w1 lookup_def intro!: find_remove_first_other)
  have a1: "avail w1 (roundtrips w1)" using a by (simp add: w1)
  from deleteTodo_ok [OF Some a1] assms(4) gone
  have r2: "r2 = Inr False" and w2: "docs w2 = remove_first (\<lambda>x. oid x = i) (docs w1)"
    by auto
  have same2: "docs w2 = docs w1"
    using gone by (simp add: w2 lookup_def remove_first_None)
  show ?thesis
  proof (cases "lookup i w")
    case None
    then have "docs w1 = docs w" by (simp add: w1 lookup_def remove_first_None)
    with None r r2 same2 Some castObjectId_valid [OF Some] show ?thesis by auto
  next
    case (Some d)
    then have len: "Suc (length (docs w1)) = length (docs w)"
      by (simp add: w1 lookup_def length_remove_first)
    then have "docs w1 \<noteq> docs w" by auto
    with Some r r2 same2 len gone others \<open>castObjectId tid = Some i\<close>
      castObjectId_valid [OF \<open>castObjectId tid = Some i\<close>]
    show ?thesis by auto
  qed
qed

theorem delete_detection_witness:
  "fst (TodoService_deleteTodo sample_id sample_world) = Inr True \<and>
   lookup sample_id (snd (TodoService_deleteTodo sample_id sample_world)) = None \<and>
   fst (TodoService_deleteTodo sample_id
          (snd (TodoService_deleteTodo sample_id sample_world))) = Inr False \<and>
   fst (TodoService_deleteTodo other_id sample_world) = Inr False \<and>
   fst (TodoService_deleteTodo other_id
          (snd (TodoService_deleteTodo other_id sample_world))) = Inr False \<and>
   fst (TodoService_deleteTodo bad_id sample_world) = Inr False"
proof -
  have d: "distinct (map oid (docs sample_world))"
    by (simp add: sample_world_def)
  have r: "reliable sample_world"
    by (simp add: reliable_def sample_world_def)
  have c: "castObjectId sample_id = Some sample_id \<and>
           lookup sample_id sample_world = Some sample_todo"
    by (simp add: eval_defs)
  have o: "castObjectId other_id = Some other_id \<and> lookup other_id sample_world = None"
    by (simp add: eval_defs)
  have b: "\<not> ObjectId_isValid bad_id"
    by (simp add: eval_defs)
  from delete_detection [OF d r surjective_pairing surjective_pairing, where tid = sample_id]
    delete_detection [OF d r surjective_pairing surjective_pairing, where tid = other_id]
    delete_detection [OF d r surjective_pairing surjective_pairing, where tid = bad_id]
    c o b
  show ?thesis by blast
qed

text \<open>
  C9 (toggle frame). For an id that a stored todo has, after Toggle the todo stored under
  that id has the same id, title, description and creation time; todos under other ids
  and the sequence of stored ids are untouched. When Toggle returns a todo it is the
  stored one, with the completed flag flipped and \<open>updatedAt\<close> set to the current time,
  and it does return one when the store answers both calls and the stored todo passes
  the schema's validators (title not empty and at most 200 code units, description at
  most 1000), which saving a loaded document checks again.
\<close>

theorem toggle_frame:
  assumes "castObjectId tid = Some i" and "lookup i w = Some d0"
    and "TodoService_toggleTodo now tid w = (r, w')"
  shows "\<exists>d1. lookup i w' = Some d1 \<and>
      oid d1 = oid d0 \<and> title d1 = title d0 \<and> description d1 = description d0 \<and>
      createdAt d1 = createdAt d0 \<and>
      (\<forall>j. j \<noteq> i \<longrightarrow> lookup j w' = lookup j w) \<and>
      map oid (docs w') = map oid (docs w) \<and>
      (\<forall>x. r = Inr x \<longrightarrow>
         x = Some d1 \<and> completed d1 = (\<not> completed d0) \<and> updatedAt d1 = now) \<and>
      (avail w (roundtrips w) \<and> avail w (Suc (roundtrips w)) \<and> valid_stored d0 \<longrightarrow>
         r = Inr (Some d1))"
proof -
  let ?f = "\<lambda>x. x\<lparr>completed := \<not> completed d0, updatedAt := now\<rparr>"
  from toggle_cases [OF assms] show ?thesis
  proof
    assume ok: "r = Inr (Some (?f d0)) \<and> avail w (roundtrips w) \<and>
                avail w (Suc (roundtrips w)) \<and> valid_stored d0 \<and>
                docs w' = update_first (\<lambda>x. oid x = i) ?f (docs w)"
    then have d: "docs w' = update_first (\<lambda>x. oid x = i) ?f (docs w)" by simp
    have "lookup i w' = Some (?f d0) \<and> (\<forall>j. j \<noteq> i \<longrightarrow> lookup j w' = lookup j w)"
      using assms(2) _ d by (rule lookup_after_update) simp
    moreover have "map oid (docs w') = map oid (docs w)"
      unfolding d by (rule map_update_first) simp
    ultimately show ?thesis using ok
      by (intro exI [of _ "?f d0"]) simp
  next
    assume no: "r = Inl ''Failed to toggle todo'' \<and>
             \<not> (avail w (roundtrips w) \<and> avail w (Suc (roundtrips w)) \<and> valid_stored d0) \<and>
             docs w' = docs w"
    then have "lookup j w' = lookup j w" for j by (simp add: lookup_def)
    with no assms(2) show ?thesis
      by (intro exI [of _ d0]) auto
  qed
qed

theorem toggle_frame_witness:
  "\<exists>d1. lookup sample_id (snd (TodoService_toggleTodo 2000 sample_id sample_world)) = Some d1 \<and>
      fst (TodoService_toggleTodo 2000 sample_id sample_world) = Inr (Some d1) \<and>
      oid d1 = sample_id \<and> title d1 = utf16 ''Buy milk'' \<and>
      description d1 = Some (utf16 ''2%'') \<and> createdAt d1 = 1000 \<and>
      completed d1 \<and> updatedAt d1 = 2000 \<and>
      lookup other_id (snd (TodoService_toggleTodo 2000 sample_id sample_world)) =
        lookup other_id sample_world"
proof -
  have c: "castObjectId sample_id = Some sample_id"
    by (simp add: eval_defs)
  have l: "lookup sample_id sample_world = Some sample_todo"
    by (simp add: eval_defs)
  have a: "avail sample_world (roundtrips sample_world) \<and>
           avail sample_world (Suc (roundtrips sample_world)) \<and> valid_stored sample_todo"
    by (simp add: valid_stored_def sample_world_def sample_todo_def utf16_def)
  have n: "other_id \<noteq> sample_id"
    by (simp add: eval_defs)
  from toggle_frame [OF c l surjective_pairing, where now = 2000] a n
  obtain d1 where
    "lookup sample_id (snd (TodoService_toggleTodo 2000 sample_id sample_world)) = Some d1"
    "fst (TodoService_toggleTodo 2000 sample_id sample_world) = Inr (Some d1)"
    "oid d1 = oid sample_todo" "title d1 = title sample_todo"
    "description d1 = description sample_todo" "createdAt d1 = createdAt sample_todo"
    "completed d1 = (\<not> completed sample_todo)" "updatedAt d1 = 2000"
    "lookup other_id (snd (TodoService_toggleTodo 2000 sample_id sample_world)) =
       lookup other_id sample_world"
    by blast
  then show ?thesis by (auto simp: sample_todo_def)
qed

text \<open>
  C10 (update with no field). For an id that a stored todo has, with a store that answers,
  an Update whose request has none of title, description and completed answers 200 with
  the stored todo, whose \<open>updatedAt\<close> is now the current time and whose other fields are
  what they were; todos under other ids and the sequence of stored ids are untouched.
\<close>

theorem empty_update_refreshes:
  assumes "castObjectId tid = Some i" and "lookup i w = Some d0" and "avail w (roundtrips w)"
    and "TodoController_updateTodo now tid
           \<lparr>u_title = None, u_description = None, u_completed = None\<rparr> w = (r, w')"
  shows "r = \<lparr>status = 200, success = True, data = Some (d0\<lparr>updatedAt := now\<rparr>),
              message = Some ''Todo updated successfully'', error = None\<rparr> \<and>
         lookup i w' = Some (d0\<lparr>updatedAt := now\<rparr>) \<and>
         (\<forall>j. j \<noteq> i \<longrightarrow> lookup j w' = lookup j w) \<and>
         map oid (docs w') = map oid (docs w)"
proof -
  let ?req = "\<lparr>u_title = None, u_description = None, u_completed = None\<rparr>"
  have f: "apply_set None None None now = (\<lambda>x. x\<lparr>updatedAt := now\<rparr>)"
    by (rule ext) (simp add: apply_set_def)
  have r: "r = \<lparr>status = 200, success = True, data = Some (d0\<lparr>updatedAt := now\<rparr>),
              message = Some ''Todo updated successfully'', error = None\<rparr>"
    using updateTodo_controller_ok [OF assms(1,2,3), of ?req now] assms(4) by (simp add: f)
  with updateTodo_controller_cases [OF assms(1,2,4)]
  have d: "docs w' = update_first (\<lambda>x. oid x = i) (\<lambda>x. x\<lparr>updatedAt := now\<rparr>) (docs w)"
    by (simp add: f)
  have "lookup i w' = Some (d0\<lparr>updatedAt := now\<rparr>) \<and>
        (\<forall>j. j \<noteq> i \<longrightarrow> lookup j w' = lookup j w)"
    using assms(2) _ d by (rule lookup_after_update) simp
  moreover have "map oid (docs w') = map oid (docs w)"
    unfolding d by (rule map_update_first) simp
  ultimately show ?thesis using r by simp
qed

theorem empty_update_refreshes_witness:
  "fst (TodoController_updateTodo 2000 sample_id empty_update sample_world) =
     \<lparr>status = 200, success = True, data = Some (sample_todo\<lparr>updatedAt := 2000\<rparr>),
      message = Some ''Todo updated successfully'', error = None\<rparr> \<and>
   lookup sample_id (snd (TodoController_updateTodo 2000 sample_id empty_update sample_world)) =
     Some (sample_todo\<lparr>updatedAt := 2000\<rparr>) \<and>
   updatedAt sample_todo = 1000"
proof -
  have c: "castObjectId sample_id = Some sample_id"
    by (simp add: eval_defs)
  have l: "lookup sample_id sample_world = Some sample_todo"
    by (simp add: eval_defs)
  have a: "avail sample_world (roundtrips sample_world)"
    by (simp add: sample_world_def)
  from empty_update_refreshes [OF c l a surjective_pairing, where now = 2000]
  show ?thesis by (simp add: empty_update_def sample_todo_def)
qed

end
